theory Spec2Isabelle
  imports Complex_Main "HOL-Library.Char_ord" "HOL-Library.List_Lexorder"
begin

section \<open>Hybrid retrieval fusion: the model of \<^verbatim>\<open>query.py\<close>\<close>

subsection \<open>Exceptions\<close>

text \<open>
  A Python exception object, reduced to what the script can observe or produce: the name
  of its class, the text \<^verbatim>\<open>str(e)\<close>, the explicit cause (\<^verbatim>\<open>__cause__\<close>, set only by
  \<^verbatim>\<open>raise ... from\<close>) and the implicit context (\<^verbatim>\<open>__context__\<close>, set when an exception
  is raised while another one is being handled). Values of this type stand for instances
  of \<^verbatim>\<open>Exception\<close>, the class that \<^verbatim>\<open>except Exception\<close> catches.
  A raise is the left injection of a sum type.
\<close>

datatype exn = Exn (exc_class: string) (exc_str: string) (exc_cause: "exn option") (exc_context: "exn option")

subsection \<open>Nodes and result items\<close>

text \<open>
  \<^verbatim>\<open>NodeWithScore\<close> pairs a node with a score. The script reads nothing but
  \<^verbatim>\<open>n.node.node_id\<close>; the score is carried along and never inspected, so its type is a
  parameter of the model.
\<close>

record base_node =
  node_id :: string
  content :: string

record 's node_with_score =
  node :: base_node
  score :: 's

subsection \<open>Retrievers\<close>

text \<open>
  An upstream retriever is called with the query bundle. It may read indices, disks or the
  network, so it takes the state of the outside world and returns the state it leaves
  behind, together with the list of result items or the exception it raised.
\<close>

type_synonym ('q, 's, 'w) retriever = "'q \<Rightarrow> 'w \<Rightarrow> (exn + 's node_with_score list) \<times> 'w"

record ('q, 's, 'w) custom_retriever =
  vector_retriever :: "('q, 's, 'w) retriever"
  keyword_retriever :: "('q, 's, 'w) retriever"
  mode :: string

text \<open>
  \<^verbatim>\<open>CustomRetriever.__init__\<close>. The optional third argument models the keyword
  parameter \<^verbatim>\<open>mode: str = "OR"\<close>: \<open>None\<close> is a call that leaves it out. The object exists
  for the caller only when the constructor returns, which is the right injection.
\<close>

definition CustomRetriever_init ::
  "('q, 's, 'w) retriever \<Rightarrow> ('q, 's, 'w) retriever \<Rightarrow> string option
     \<Rightarrow> exn + ('q, 's, 'w) custom_retriever" where
  "CustomRetriever_init vr kr mode_arg =
     (let m = (case mode_arg of None \<Rightarrow> ''OR'' | Some given \<Rightarrow> given)
      in if m \<notin> set [''AND'', ''OR'']
         then Inl (Exn ''ValueError'' ''Invalid mode.'' None None)
         else Inr \<lparr>vector_retriever = vr, keyword_retriever = kr, mode = m\<rparr>)"

subsection \<open>Sets, dictionaries and the list comprehension\<close>

text \<open>
  The order in which Python iterates over a set of strings is not fixed by the language
  (it follows the hash values, which change from one process to the next). The model takes
  the iteration as a parameter \<open>it\<close>: a function that lists a finite set. All that is known
  of it is \<open>set_iteration\<close>: every element is listed, once, and nothing else.
\<close>

definition set_iteration :: "(string set \<Rightarrow> string list) \<Rightarrow> bool" where
  "set_iteration it \<longleftrightarrow> (\<forall>S. finite S \<longrightarrow> set (it S) = S \<and> distinct (it S))"

text \<open>The set comprehension \<^verbatim>\<open>{n.node.node_id for n in nodes}\<close>.\<close>

definition node_ids :: "'s node_with_score list \<Rightarrow> string set" where
  "node_ids nodes = set (map (\<lambda>n. node_id (node n)) nodes)"

text \<open>
  The dictionary comprehension \<^verbatim>\<open>{n.node.node_id: n for n in nodes}\<close>: the items are
  stored one after the other, a later item replacing an earlier one with the same key.
\<close>

definition dict_of_nodes :: "'s node_with_score list \<Rightarrow> (string \<rightharpoonup> 's node_with_score)" where
  "dict_of_nodes nodes = foldl (\<lambda>d n. d(node_id (node n) \<mapsto> n)) Map.empty nodes"

text \<open>
  \<^verbatim>\<open>combined_dict\<close> after line 40: the dictionary of the vector nodes, updated with the
  dictionary of the keyword nodes (\<^verbatim>\<open>dict.update\<close> overwrites on equal keys).
\<close>

definition combined_dict ::
  "'s node_with_score list \<Rightarrow> 's node_with_score list \<Rightarrow> (string \<rightharpoonup> 's node_with_score)" where
  "combined_dict vector_nodes keyword_nodes = dict_of_nodes vector_nodes ++ dict_of_nodes keyword_nodes"

text \<open>\<^verbatim>\<open>retrieve_ids\<close>: the intersection when the mode is "AND", the union in the else branch.\<close>

definition retrieve_ids :: "string \<Rightarrow> 's node_with_score list \<Rightarrow> 's node_with_score list \<Rightarrow> string set" where
  "retrieve_ids m vector_nodes keyword_nodes =
     (let vector_ids = node_ids vector_nodes;
          keyword_ids = node_ids keyword_nodes
      in if m = ''AND'' then vector_ids \<inter> keyword_ids else vector_ids \<union> keyword_ids)"

text \<open>
  The list comprehension \<^verbatim>\<open>[combined_dict[rid] for rid in retrieve_ids]\<close>, over the ids in
  the order the iteration gives them. Subscripting a dictionary with a key it does not hold
  raises \<^verbatim>\<open>KeyError(rid)\<close>, which ends the comprehension at once.
\<close>

fun retrieve_nodes :: "(string \<rightharpoonup> 'a) \<Rightarrow> string list \<Rightarrow> exn + 'a list" where
  "retrieve_nodes d [] = Inr []"
| "retrieve_nodes d (rid # rids) =
     (case d rid of
        None \<Rightarrow> Inl (Exn ''KeyError'' rid None None)
      | Some n \<Rightarrow> (case retrieve_nodes d rids of Inl e \<Rightarrow> Inl e | Inr ns \<Rightarrow> Inr (n # ns)))"

subsection \<open>The fusion retriever\<close>

text \<open>
  \<^verbatim>\<open>CustomRetriever._retrieve\<close>. The vector retriever is called first; an exception it
  raises leaves the function at once, since there is no handler. The keyword retriever is
  called next, in the world the first call left. Then the merge, which touches nothing
  outside.
\<close>

definition CustomRetriever_retrieve ::
  "(string set \<Rightarrow> string list) \<Rightarrow> ('q, 's, 'w) custom_retriever \<Rightarrow> ('q, 's, 'w) retriever" where
  "CustomRetriever_retrieve it self query_bundle w =
     (case vector_retriever self query_bundle w of
        (Inl e, w1) \<Rightarrow> (Inl e, w1)
      | (Inr vector_nodes, w1) \<Rightarrow>
          (case keyword_retriever self query_bundle w1 of
             (Inl e, w2) \<Rightarrow> (Inl e, w2)
           | (Inr keyword_nodes, w2) \<Rightarrow>
               (retrieve_nodes (combined_dict vector_nodes keyword_nodes)
                  (it (retrieve_ids (mode self) vector_nodes keyword_nodes)), w2)))"

subsection \<open>Loading documents and wiring the engines\<close>

text \<open>
  \<^verbatim>\<open>load_documents\<close>. The reader \<^verbatim>\<open>SimpleDirectoryReader(input_dir=file_path).load_data()\<close>
  belongs to the library and is a parameter. The handler raises a new \<^verbatim>\<open>RuntimeError\<close>
  while the caught exception is being handled, without \<^verbatim>\<open>from\<close>: Python records the
  caught exception as the context of the new one and leaves its cause unset.
\<close>

definition load_documents ::
  "(string \<Rightarrow> 'w \<Rightarrow> (exn + 'd list) \<times> 'w) \<Rightarrow> string \<Rightarrow> 'w \<Rightarrow> (exn + 'd list) \<times> 'w" where
  "load_documents simple_directory_reader file_path w =
     (case simple_directory_reader file_path w of
        (Inr documents, w1) \<Rightarrow> (Inr documents, w1)
      | (Inl e, w1) \<Rightarrow>
          (Inl (Exn ''RuntimeError'' (''Failed to load documents: '' @ exc_str e) None (Some e)), w1))"

text \<open>
  \<^verbatim>\<open>create_query_engines\<close>. The constructors of the library's retrievers, of the response
  synthesizer and of the query engine are parameters; a query engine is the pair of its
  retriever and its synthesizer. The custom retriever is built with two arguments only.
\<close>

record ('q, 's, 'w, 'y) retriever_query_engine =
  retriever :: "('q, 's, 'w) retriever"
  response_synthesizer :: 'y

definition create_query_engines ::
  "(string set \<Rightarrow> string list) \<Rightarrow> ('vi \<Rightarrow> nat \<Rightarrow> ('q, 's, 'w) retriever) \<Rightarrow> ('ki \<Rightarrow> ('q, 's, 'w) retriever)
     \<Rightarrow> 'y \<Rightarrow> 'vi \<Rightarrow> 'ki
     \<Rightarrow> exn + (('q, 's, 'w, 'y) retriever_query_engine \<times> ('q, 's, 'w, 'y) retriever_query_engine
               \<times> ('q, 's, 'w, 'y) retriever_query_engine)" where
  "create_query_engines it VectorIndexRetriever KeywordTableSimpleRetriever get_response_synthesizer
       vector_index keyword_index =
     (let vector_retriever = VectorIndexRetriever vector_index 2;
          keyword_retriever = KeywordTableSimpleRetriever keyword_index
      in case CustomRetriever_init vector_retriever keyword_retriever None of
           Inl e \<Rightarrow> Inl e
         | Inr custom_retriever \<Rightarrow>
             (let response_synthesizer = get_response_synthesizer;
                  custom_query_engine =
                    \<lparr>retriever = CustomRetriever_retrieve it custom_retriever,
                     response_synthesizer = response_synthesizer\<rparr>;
                  vector_query_engine =
                    \<lparr>retriever = vector_retriever, response_synthesizer = response_synthesizer\<rparr>;
                  keyword_query_engine =
                    \<lparr>retriever = keyword_retriever, response_synthesizer = response_synthesizer\<rparr>
              in Inr (vector_query_engine, keyword_query_engine, custom_query_engine)))"

subsection \<open>Example inputs\<close>

text \<open>
  Concrete inputs for the properties below. The two result lists are those of the scenario
  in the specification's testable properties. The world of the examples is the number of
  upstream calls made so far. There are two iterations that can be run: the elements in
  lexicographic order, and in the reverse of it.
\<close>

definition sorted_iteration :: "string set \<Rightarrow> string list" where
  "sorted_iteration S = sorted_list_of_set S"

definition reversed_iteration :: "string set \<Rightarrow> string list" where
  "reversed_iteration S = rev (sorted_list_of_set S)"

definition scenario_V :: "real node_with_score list" where
  "scenario_V =
     [\<lparr>node = \<lparr>node_id = ''a'', content = ''first chunk''\<rparr>, score = 9 / 10\<rparr>,
      \<lparr>node = \<lparr>node_id = ''b'', content = ''second chunk''\<rparr>, score = 5 / 10\<rparr>]"

definition scenario_K :: "real node_with_score list" where
  "scenario_K =
     [\<lparr>node = \<lparr>node_id = ''b'', content = ''second chunk''\<rparr>, score = 7 / 10\<rparr>,
      \<lparr>node = \<lparr>node_id = ''c'', content = ''third chunk''\<rparr>, score = 3 / 10\<rparr>]"

definition answering :: "(exn + 's node_with_score list) \<Rightarrow> (string, 's, nat) retriever" where
  "answering r = (\<lambda>query_bundle w. (r, Suc w))"

definition scenario_retriever :: "string \<Rightarrow> (string, real, nat) custom_retriever" where
  "scenario_retriever m =
     \<lparr>vector_retriever = answering (Inr scenario_V),
      keyword_retriever = answering (Inr scenario_K),
      mode = m\<rparr>"

definition upstream_failure :: exn where
  "upstream_failure = Exn ''ConnectionError'' ''index unreachable'' None None"

definition vector_down :: "(string, real, nat) custom_retriever" where
  "vector_down =
     \<lparr>vector_retriever = answering (Inl upstream_failure),
      keyword_retriever = answering (Inr scenario_K),
      mode = ''OR''\<rparr>"

definition keyword_down :: "(string, real, nat) custom_retriever" where
  "keyword_down =
     \<lparr>vector_retriever = answering (Inr scenario_V),
      keyword_retriever = answering (Inl upstream_failure),
      mode = ''OR''\<rparr>"

definition empty_retriever :: "string \<Rightarrow> (string, real, nat) custom_retriever" where
  "empty_retriever m =
     \<lparr>vector_retriever = answering (Inr []),
      keyword_retriever = answering (Inr []),
      mode = m\<rparr>"

text \<open>A reader that fails when called first and would succeed on any later call.\<close>

definition flaky_reader :: "string \<Rightarrow> nat \<Rightarrow> (exn + string list) \<times> nat" where
  "flaky_reader file_path w =
     (if w = 0 then (Inl (Exn ''FileNotFoundError'' ''no such directory'' None None), Suc w)
      else (Inr [''resume text''], Suc w))"

definition repeating_retriever :: "string \<Rightarrow> (string, real, nat) custom_retriever" where
  "repeating_retriever m =
     \<lparr>vector_retriever = answering (Inr (scenario_V @ scenario_V)),
      keyword_retriever = answering (Inr scenario_K),
      mode = m\<rparr>"

text \<open>
  Retriever constructors over an index that is the list of its result items: the vector
  retriever answers with the first \<open>similarity_top_k\<close> of them, the keyword retriever with
  all of them.
\<close>

definition top_k_retriever :: "real node_with_score list \<Rightarrow> nat \<Rightarrow> (string, real, nat) retriever" where
  "top_k_retriever index similarity_top_k = answering (Inr (take similarity_top_k index))"

definition whole_index_retriever :: "real node_with_score list \<Rightarrow> (string, real, nat) retriever" where
  "whole_index_retriever index = answering (Inr index)"

section \<open>Properties\<close>

subsection \<open>Dictionaries, id sets and the comprehension\<close>

lemma finite_node_ids: "finite (node_ids xs)"
  by (simp add: node_ids_def)

lemma foldl_dict_lookup:
  "foldl (\<lambda>d n. d(node_id (node n) \<mapsto> n)) d0 xs i =
     (if i \<in> node_ids xs then Some (last (filter (\<lambda>n. node_id (node n) = i) xs)) else d0 i)"
proof (induction xs arbitrary: d0)
  case Nil
  then show ?case by (simp add: node_ids_def)
next
  case (Cons x xs)
  show ?case
  proof (cases "i \<in> node_ids xs")
    case True
    then have "filter (\<lambda>n. node_id (node n) = i) xs \<noteq> []"
      by (auto simp: node_ids_def filter_empty_conv)
    with True Cons.IH show ?thesis by (simp add: node_ids_def)
  next
    case False
    then have "filter (\<lambda>n. node_id (node n) = i) xs = []"
      by (auto simp: node_ids_def filter_empty_conv)
    with False Cons.IH show ?thesis by (auto simp: node_ids_def)
  qed
qed

lemma dict_of_nodes_lookup:
  "dict_of_nodes xs i =
     (if i \<in> node_ids xs then Some (last (filter (\<lambda>n. node_id (node n) = i) xs)) else None)"
  by (simp add: dict_of_nodes_def foldl_dict_lookup)

lemma dom_dict_of_nodes: "dom (dict_of_nodes xs) = node_ids xs"
  by (auto simp: dict_of_nodes_lookup dom_def)

lemma combined_dict_lookup:
  "combined_dict V K i =
     (if i \<in> node_ids K then Some (last (filter (\<lambda>n. node_id (node n) = i) K))
      else if i \<in> node_ids V then Some (last (filter (\<lambda>n. node_id (node n) = i) V))
      else None)"
  by (simp add: combined_dict_def map_add_def dict_of_nodes_lookup)

lemma dom_combined_dict: "dom (combined_dict V K) = node_ids V \<union> node_ids K"
  by (simp add: combined_dict_def dom_dict_of_nodes Un_commute)

lemma last_filter_id:
  "i \<in> node_ids xs \<Longrightarrow> node_id (node (last (filter (\<lambda>n. node_id (node n) = i) xs))) = i"
proof -
  assume "i \<in> node_ids xs"
  then have ne: "filter (\<lambda>n. node_id (node n) = i) xs \<noteq> []"
    by (auto simp: node_ids_def filter_empty_conv)
  from last_in_set [OF ne] show ?thesis by simp
qed

lemma combined_dict_key:
  "combined_dict V K i = Some n \<Longrightarrow> node_id (node n) = i"
  by (auto simp: combined_dict_lookup last_filter_id split: if_splits)

lemma retrieve_ids_subset: "retrieve_ids m V K \<subseteq> node_ids V \<union> node_ids K"
  by (auto simp: retrieve_ids_def Let_def)

lemma finite_retrieve_ids: "finite (retrieve_ids m V K)"
  by (rule finite_subset [OF retrieve_ids_subset]) (simp add: finite_node_ids)

lemma retrieve_nodes_total:
  "set rids \<subseteq> dom d \<Longrightarrow> retrieve_nodes d rids = Inr (map (\<lambda>rid. the (d rid)) rids)"
  by (induction rids) auto

lemma retrieve_nodes_ids:
  assumes "\<And>i n. d i = Some n \<Longrightarrow> node_id (node n) = i" and "set rids \<subseteq> dom d"
  shows "map (\<lambda>n. node_id (node n)) (map (\<lambda>rid. the (d rid)) rids) = rids"
  using assms by (induction rids) auto

lemma set_iteration_sorted: "set_iteration sorted_iteration"
  by (simp add: set_iteration_def sorted_iteration_def)

lemma set_iteration_set: "set_iteration it \<Longrightarrow> finite S \<Longrightarrow> set (it S) = S"
  by (simp add: set_iteration_def)

lemma set_iteration_distinct: "set_iteration it \<Longrightarrow> finite S \<Longrightarrow> distinct (it S)"
  by (simp add: set_iteration_def)

lemma set_it_retrieve_ids:
  "set_iteration it \<Longrightarrow> set (it (retrieve_ids m V K)) = retrieve_ids m V K"
  by (rule set_iteration_set [OF _ finite_retrieve_ids])

lemma set_it_subset_dom:
  "set_iteration it \<Longrightarrow> set (it (retrieve_ids m V K)) \<subseteq> dom (combined_dict V K)"
  by (simp add: set_it_retrieve_ids dom_combined_dict retrieve_ids_subset)

lemma retrieve_returns:
  assumes "set_iteration it"
    and "vector_retriever self q w = (Inr V, w1)"
    and "keyword_retriever self q w1 = (Inr K, w2)"
  shows "CustomRetriever_retrieve it self q w =
           (Inr (map (\<lambda>rid. the (combined_dict V K rid)) (it (retrieve_ids (mode self) V K))), w2)"
proof -
  have "set (it (retrieve_ids (mode self) V K)) \<subseteq> dom (combined_dict V K)"
    using assms(1) by (rule set_it_subset_dom)
  then show ?thesis
    using assms(2,3) by (simp add: CustomRetriever_retrieve_def retrieve_nodes_total)
qed

lemma comprehension_ids:
  assumes "set_iteration it"
  shows "map (\<lambda>n. node_id (node n)) (map (\<lambda>rid. the (combined_dict V K rid)) (it (retrieve_ids m V K)))
           = it (retrieve_ids m V K)"
proof (rule retrieve_nodes_ids)
  show "\<And>i n. combined_dict V K i = Some n \<Longrightarrow> node_id (node n) = i"
    by (rule combined_dict_key)
  show "set (it (retrieve_ids m V K)) \<subseteq> dom (combined_dict V K)"
    using assms by (rule set_it_subset_dom)
qed

lemma fusion_result:
  assumes "set_iteration it"
    and "vector_retriever self q w = (Inr V, w1)"
    and "keyword_retriever self q w1 = (Inr K, w2)"
  shows "\<exists>out. CustomRetriever_retrieve it self q w = (Inr out, w2)
           \<and> map (\<lambda>n. node_id (node n)) out = it (retrieve_ids (mode self) V K)
           \<and> (\<forall>n. n \<in> set out \<longrightarrow> combined_dict V K (node_id (node n)) = Some n)"
proof -
  let ?rids = "it (retrieve_ids (mode self) V K)"
  let ?out = "map (\<lambda>rid. the (combined_dict V K rid)) ?rids"
  have sub: "set ?rids \<subseteq> dom (combined_dict V K)"
    using assms(1) by (rule set_it_subset_dom)
  have "CustomRetriever_retrieve it self q w = (Inr ?out, w2)"
    using assms by (rule retrieve_returns)
  moreover have "map (\<lambda>n. node_id (node n)) ?out = ?rids"
    using assms(1) by (rule comprehension_ids)
  moreover have "\<forall>n. n \<in> set ?out \<longrightarrow> combined_dict V K (node_id (node n)) = Some n"
  proof (intro allI impI)
    fix n assume "n \<in> set ?out"
    then obtain rid where r: "rid \<in> set ?rids" and n: "n = the (combined_dict V K rid)"
      by auto
    from r sub obtain n' where s: "combined_dict V K rid = Some n'"
      by blast
    with n have "n' = n" by simp
    with s combined_dict_key [OF s] show "combined_dict V K (node_id (node n)) = Some n"
      by simp
  qed
  ultimately show ?thesis by blast
qed

lemma node_ids_out:
  assumes "set_iteration it" and "map (\<lambda>n. node_id (node n)) out = it (retrieve_ids m V K)"
  shows "node_ids out = retrieve_ids m V K"
proof -
  have "node_ids out = set (it (retrieve_ids m V K))"
    using assms(2) by (simp add: node_ids_def)
  then show ?thesis using set_it_retrieve_ids [OF assms(1)] by simp
qed

lemma retrieve_ids_if:
  "retrieve_ids m V K = (if m = ''AND'' then node_ids V \<inter> node_ids K else node_ids V \<union> node_ids K)"
  by (simp add: retrieve_ids_def Let_def)

lemma filter_key_singleton:
  assumes "distinct (map f xs)" and "x \<in> set xs"
  shows "filter (\<lambda>y. f y = f x) xs = [x]"
  using assms
proof (induction xs)
  case Nil
  then show ?case by simp
next
  case (Cons a xs)
  show ?case
  proof (cases "a = x")
    case True
    with Cons.prems(1) have "\<forall>y \<in> set xs. f y \<noteq> f x" by (auto simp: image_iff)
    then have "filter (\<lambda>y. f y = f x) xs = []" by (simp add: filter_empty_conv)
    with True show ?thesis by simp
  next
    case False
    with Cons.prems have "x \<in> set xs" and "f a \<noteq> f x" by auto
    with Cons show ?thesis by simp
  qed
qed

lemma fusion_distinct:
  assumes "set_iteration it" and "map (\<lambda>n. node_id (node n)) out = it (retrieve_ids m V K)"
  shows "distinct (map (\<lambda>n. node_id (node n)) out)"
  using assms set_iteration_distinct [OF assms(1) finite_retrieve_ids] by simp

lemma fusion_item_for_id:
  assumes "set_iteration it"
    and "map (\<lambda>n. node_id (node n)) out = it (retrieve_ids m V K)"
    and "\<forall>n. n \<in> set out \<longrightarrow> combined_dict V K (node_id (node n)) = Some n"
    and "i \<in> retrieve_ids m V K"
  shows "filter (\<lambda>n. node_id (node n) = i) out = [the (combined_dict V K i)]"
proof -
  have "i \<in> node_ids out"
    using assms(4) node_ids_out [OF assms(1,2)] by simp
  then obtain n where n: "n \<in> set out" and i: "node_id (node n) = i"
    by (auto simp: node_ids_def)
  from assms(3) n i have c: "combined_dict V K i = Some n" by blast
  have "filter (\<lambda>y. node_id (node y) = node_id (node n)) out = [n]"
    using fusion_distinct [OF assms(1,2)] n by (rule filter_key_singleton)
  with i c show ?thesis by simp
qed

lemma it_retrieve_ids_empty:
  assumes "set_iteration it"
  shows "it (retrieve_ids m [] []) = []"
proof -
  have "set (it {}) = {}"
    using assms by (simp add: set_iteration_set)
  then show ?thesis
    by (simp add: retrieve_ids_if node_ids_def)
qed

lemma set_iteration_reversed: "set_iteration reversed_iteration"
  by (simp add: set_iteration_def reversed_iteration_def)

subsection \<open>The example inputs\<close>

lemma scenario_calls:
  "vector_retriever (scenario_retriever m) q 0 = (Inr scenario_V, 1)"
  "keyword_retriever (scenario_retriever m) q 1 = (Inr scenario_K, 2)"
  by (simp_all add: scenario_retriever_def answering_def)

lemma scenario_ids:
  "node_ids scenario_V = {''a'', ''b''}" "node_ids scenario_K = {''b'', ''c''}"
  by (simp_all add: node_ids_def scenario_V_def scenario_K_def)

lemma scenario_calls_again:
  "vector_retriever (scenario_retriever m) q 2 = (Inr scenario_V, 3)"
  "keyword_retriever (scenario_retriever m) q 3 = (Inr scenario_K, 4)"
  by (simp_all add: scenario_retriever_def answering_def)

lemma repeating_calls:
  "vector_retriever (repeating_retriever m) q 0 = (Inr (scenario_V @ scenario_V), 1)"
  "keyword_retriever (repeating_retriever m) q 1 = (Inr scenario_K, 2)"
  by (simp_all add: repeating_retriever_def answering_def)

lemma empty_calls:
  "vector_retriever (empty_retriever m) q 0 = (Inr [], 1)"
  "keyword_retriever (empty_retriever m) q 1 = (Inr [], 2)"
  by (simp_all add: empty_retriever_def answering_def)

section \<open>The claims\<close>

text \<open>
  C1: when both upstream calls return, the fusion retriever returns a list whose set of
  node ids is the intersection of the two upstream id sets in mode AND and their union in
  mode OR: every id of the set is there and no other.
\<close>

theorem fusion_id_set:
  assumes "set_iteration it"
    and "vector_retriever self q w = (Inr V, w1)"
    and "keyword_retriever self q w1 = (Inr K, w2)"
  shows "\<exists>out. CustomRetriever_retrieve it self q w = (Inr out, w2)
           \<and> (mode self = ''AND'' \<longrightarrow> node_ids out = node_ids V \<inter> node_ids K)
           \<and> (mode self = ''OR'' \<longrightarrow> node_ids out = node_ids V \<union> node_ids K)"
proof -
  from fusion_result [OF assms] obtain out
    where r: "CustomRetriever_retrieve it self q w = (Inr out, w2)"
      and m: "map (\<lambda>n. node_id (node n)) out = it (retrieve_ids (mode self) V K)"
    by blast
  have "node_ids out = retrieve_ids (mode self) V K"
    using assms(1) m by (rule node_ids_out)
  then have "(mode self = ''AND'' \<longrightarrow> node_ids out = node_ids V \<inter> node_ids K)
           \<and> (mode self = ''OR'' \<longrightarrow> node_ids out = node_ids V \<union> node_ids K)"
    by (simp add: retrieve_ids_if)
  with r show ?thesis by blast
qed

theorem fusion_id_set_witness:
  "(\<exists>out. CustomRetriever_retrieve sorted_iteration (scenario_retriever ''AND'') ''first job'' 0 = (Inr out, 2)
      \<and> node_ids out = {''b''})
   \<and> (\<exists>out. CustomRetriever_retrieve sorted_iteration (scenario_retriever ''OR'') ''first job'' 0 = (Inr out, 2)
      \<and> node_ids out = {''a'', ''b'', ''c''})"
proof -
  have m: "mode (scenario_retriever ''AND'') = ''AND''" "mode (scenario_retriever ''OR'') = ''OR''"
    by (simp_all add: scenario_retriever_def)
  have i: "node_ids scenario_V \<inter> node_ids scenario_K = {''b''}"
    "node_ids scenario_V \<union> node_ids scenario_K = {''a'', ''b'', ''c''}"
    by (auto simp: scenario_ids)
  show ?thesis
    using fusion_id_set [OF set_iteration_sorted scenario_calls, of "''AND''" "''first job''"]
      fusion_id_set [OF set_iteration_sorted scenario_calls, of "''OR''" "''first job''"]
    by (simp add: m i)
qed

text \<open>
  C2: an id found in both upstream lists has exactly one item in the fused list, and that
  item is the keyword retriever's: the last item of the keyword list with this id, which
  the update of the dictionary stored over whatever the vector list had put there.
\<close>

theorem keyword_item_wins:
  assumes "set_iteration it"
    and "vector_retriever self q w = (Inr V, w1)"
    and "keyword_retriever self q w1 = (Inr K, w2)"
    and "i \<in> node_ids V" and "i \<in> node_ids K"
  shows "\<exists>out. CustomRetriever_retrieve it self q w = (Inr out, w2)
           \<and> filter (\<lambda>n. node_id (node n) = i) out = [last (filter (\<lambda>n. node_id (node n) = i) K)]
           \<and> last (filter (\<lambda>n. node_id (node n) = i) K) \<in> set K"
proof -
  from fusion_result [OF assms(1-3)] obtain out
    where r: "CustomRetriever_retrieve it self q w = (Inr out, w2)"
      and m: "map (\<lambda>n. node_id (node n)) out = it (retrieve_ids (mode self) V K)"
      and d: "\<forall>n. n \<in> set out \<longrightarrow> combined_dict V K (node_id (node n)) = Some n"
    by blast
  have "i \<in> retrieve_ids (mode self) V K"
    using assms(4,5) by (simp add: retrieve_ids_if)
  then have "filter (\<lambda>n. node_id (node n) = i) out = [the (combined_dict V K i)]"
    using assms(1) m d by (simp add: fusion_item_for_id)
  then have f: "filter (\<lambda>n. node_id (node n) = i) out = [last (filter (\<lambda>n. node_id (node n) = i) K)]"
    using assms(5) by (simp add: combined_dict_lookup)
  have "filter (\<lambda>n. node_id (node n) = i) K \<noteq> []"
    using assms(5) by (auto simp: node_ids_def filter_empty_conv)
  then have "last (filter (\<lambda>n. node_id (node n) = i) K) \<in> set (filter (\<lambda>n. node_id (node n) = i) K)"
    by (rule last_in_set)
  then have "last (filter (\<lambda>n. node_id (node n) = i) K) \<in> set K"
    by simp
  with r f show ?thesis by blast
qed

theorem keyword_item_wins_witness:
  "\<exists>out. CustomRetriever_retrieve sorted_iteration (scenario_retriever ''OR'') ''first job'' 0 = (Inr out, 2)
      \<and> filter (\<lambda>n. node_id (node n) = ''b'') out
           = [\<lparr>node = \<lparr>node_id = ''b'', content = ''second chunk''\<rparr>, score = 7 / 10\<rparr>]
      \<and> map score (filter (\<lambda>n. node_id (node n) = ''b'') out) = [7 / 10]
      \<and> map score (filter (\<lambda>n. node_id (node n) = ''b'') scenario_V) = [5 / 10]"
proof -
  have b: "''b'' \<in> node_ids scenario_V" "''b'' \<in> node_ids scenario_K"
    by (simp_all add: scenario_ids)
  have k: "last (filter (\<lambda>n. node_id (node n) = ''b'') scenario_K)
             = \<lparr>node = \<lparr>node_id = ''b'', content = ''second chunk''\<rparr>, score = 7 / 10\<rparr>"
    by (simp add: scenario_K_def)
  have v: "map score (filter (\<lambda>n. node_id (node n) = ''b'') scenario_V) = [5 / 10]"
    by (simp add: scenario_V_def)
  show ?thesis
    using keyword_item_wins [OF set_iteration_sorted scenario_calls b, of "''OR''" "''first job''"]
    by (auto simp: k v)
qed

text \<open>
  C3: the constructor called with a mode other than "AND" and "OR" raises
  \<^verbatim>\<open>ValueError("Invalid mode.")\<close> and returns no object; called with "AND" or "OR" it returns
  the object holding the two retrievers and the mode.
\<close>

theorem init_checks_mode:
  "(m \<notin> {''AND'', ''OR''} \<longrightarrow>
      CustomRetriever_init vr kr (Some m) = Inl (Exn ''ValueError'' ''Invalid mode.'' None None))
   \<and> (m \<in> {''AND'', ''OR''} \<longrightarrow>
      CustomRetriever_init vr kr (Some m)
        = Inr \<lparr>vector_retriever = vr, keyword_retriever = kr, mode = m\<rparr>)"
  by (simp add: CustomRetriever_init_def)

theorem init_checks_mode_witness:
  "CustomRetriever_init (answering (Inr scenario_V)) (answering (Inr scenario_K)) (Some ''XOR'')
     = Inl (Exn ''ValueError'' ''Invalid mode.'' None None)
   \<and> CustomRetriever_init (answering (Inr scenario_V)) (answering (Inr scenario_K)) (Some ''AND'')
     = Inr (scenario_retriever ''AND'')
   \<and> CustomRetriever_init (answering (Inr scenario_V)) (answering (Inr scenario_K)) (Some ''OR'')
     = Inr (scenario_retriever ''OR'')"
  using init_checks_mode [of "''XOR''" "answering (Inr scenario_V)" "answering (Inr scenario_K)"]
    init_checks_mode [of "''AND''" "answering (Inr scenario_V)" "answering (Inr scenario_K)"]
    init_checks_mode [of "''OR''" "answering (Inr scenario_V)" "answering (Inr scenario_K)"]
  by (simp add: scenario_retriever_def)

text \<open>
  C4, as the code has it: when an upstream call raises, the fusion retriever ends with that
  very exception, unchanged, and returns no list. When the vector retriever raises, the keyword
  retriever is not called: the world is the one the vector call left.
\<close>

theorem failure_propagates_unchanged:
  "(vector_retriever self q w = (Inl e, w1) \<longrightarrow>
      CustomRetriever_retrieve it self q w = (Inl e, w1))
   \<and> (vector_retriever self q w = (Inr V, w1) \<and> keyword_retriever self q w1 = (Inl e, w2) \<longrightarrow>
      CustomRetriever_retrieve it self q w = (Inl e, w2))"
  by (simp add: CustomRetriever_retrieve_def)

theorem failure_propagates_unchanged_witness:
  "CustomRetriever_retrieve sorted_iteration vector_down ''first job'' 0 = (Inl upstream_failure, 1)
   \<and> CustomRetriever_retrieve sorted_iteration keyword_down ''first job'' 0 = (Inl upstream_failure, 2)"
proof -
  have v: "vector_retriever vector_down ''first job'' 0 = (Inl upstream_failure, 1)"
    by (simp add: vector_down_def answering_def)
  have k: "vector_retriever keyword_down ''first job'' 0 = (Inr scenario_V, 1)
             \<and> keyword_retriever keyword_down ''first job'' 1 = (Inl upstream_failure, 2)"
    by (simp add: keyword_down_def answering_def)
  show ?thesis
    using failure_propagates_unchanged [of vector_down "''first job''" 0 upstream_failure 1 sorted_iteration]
      failure_propagates_unchanged [of keyword_down "''first job''" 0 upstream_failure 1 sorted_iteration scenario_V 2]
      v k
    by simp
qed

text \<open>
  C4, as the specification words it, asks for a \<^verbatim>\<open>RetrievalError\<close> that wraps the upstream exception. With a
  vector retriever that raises a \<^verbatim>\<open>ConnectionError\<close>, the exception that leaves the fusion
  retriever is this \<^verbatim>\<open>ConnectionError\<close> itself: its class is not \<^verbatim>\<open>RetrievalError\<close>, and it has
  neither a cause nor a context, so it wraps nothing.
\<close>

theorem no_retrieval_error_wrapper:
  "vector_retriever vector_down ''first job'' 0 = (Inl upstream_failure, 1)
   \<and> CustomRetriever_retrieve sorted_iteration vector_down ''first job'' 0 = (Inl upstream_failure, 1)
   \<and> exc_class upstream_failure \<noteq> ''RetrievalError''
   \<and> exc_cause upstream_failure = None
   \<and> exc_context upstream_failure = None"
  by (simp add: CustomRetriever_retrieve_def vector_down_def answering_def upstream_failure_def)

text \<open>
  C5: two calls with the same query, in which the upstream retrievers return the same two
  lists, give lists with the same set of node ids, whatever the worlds the calls start from
  and whatever the order in which each call iterates over its id set.
\<close>

theorem same_id_set_twice:
  assumes "set_iteration it" and "set_iteration it'"
    and "vector_retriever self q w = (Inr V, w1)"
    and "keyword_retriever self q w1 = (Inr K, w2)"
    and "vector_retriever self q w' = (Inr V, w1')"
    and "keyword_retriever self q w1' = (Inr K, w2')"
  shows "\<exists>out out'. CustomRetriever_retrieve it self q w = (Inr out, w2)
           \<and> CustomRetriever_retrieve it' self q w' = (Inr out', w2')
           \<and> node_ids out = node_ids out'"
proof -
  from fusion_result [OF assms(1,3,4)] obtain out
    where r: "CustomRetriever_retrieve it self q w = (Inr out, w2)"
      and m: "map (\<lambda>n. node_id (node n)) out = it (retrieve_ids (mode self) V K)"
    by blast
  from fusion_result [OF assms(2,5,6)] obtain out'
    where r': "CustomRetriever_retrieve it' self q w' = (Inr out', w2')"
      and m': "map (\<lambda>n. node_id (node n)) out' = it' (retrieve_ids (mode self) V K)"
    by blast
  have "node_ids out = retrieve_ids (mode self) V K"
    using assms(1) m by (rule node_ids_out)
  moreover have "node_ids out' = retrieve_ids (mode self) V K"
    using assms(2) m' by (rule node_ids_out)
  ultimately have "node_ids out = node_ids out'" by simp
  with r r' show ?thesis by blast
qed

theorem same_id_set_twice_witness:
  "\<exists>out out'. CustomRetriever_retrieve sorted_iteration (scenario_retriever ''OR'') ''first job'' 0 = (Inr out, 2)
      \<and> CustomRetriever_retrieve reversed_iteration (scenario_retriever ''OR'') ''first job'' 2 = (Inr out', 4)
      \<and> node_ids out = node_ids out'"
  using same_id_set_twice [OF set_iteration_sorted set_iteration_reversed scenario_calls scenario_calls_again,
      of "''OR''" "''first job''"]
  by simp

text \<open>
  C6: every node id of the fused list comes from an upstream list (from both in mode AND,
  from one at least in mode OR), and every qualifying id has exactly one item in the fused
  list, also when it came up in both lists or several times in one.
\<close>

theorem fused_ids_upstream_once:
  assumes "set_iteration it"
    and "vector_retriever self q w = (Inr V, w1)"
    and "keyword_retriever self q w1 = (Inr K, w2)"
  shows "\<exists>out. CustomRetriever_retrieve it self q w = (Inr out, w2)
           \<and> node_ids out \<subseteq> node_ids V \<union> node_ids K
           \<and> (mode self = ''AND'' \<longrightarrow>
                 node_ids out \<subseteq> node_ids V \<inter> node_ids K
                 \<and> (\<forall>i. i \<in> node_ids V \<and> i \<in> node_ids K \<longrightarrow>
                        length (filter (\<lambda>n. node_id (node n) = i) out) = 1))
           \<and> (mode self = ''OR'' \<longrightarrow>
                 (\<forall>i. i \<in> node_ids V \<or> i \<in> node_ids K \<longrightarrow>
                        length (filter (\<lambda>n. node_id (node n) = i) out) = 1))
           \<and> distinct (map (\<lambda>n. node_id (node n)) out)"
proof -
  from fusion_result [OF assms(1-3)] obtain out
    where r: "CustomRetriever_retrieve it self q w = (Inr out, w2)"
      and m: "map (\<lambda>n. node_id (node n)) out = it (retrieve_ids (mode self) V K)"
      and d: "\<forall>n. n \<in> set out \<longrightarrow> combined_dict V K (node_id (node n)) = Some n"
    by blast
  have ids: "node_ids out = retrieve_ids (mode self) V K"
    using assms(1) m by (rule node_ids_out)
  have once: "length (filter (\<lambda>n. node_id (node n) = i) out) = 1"
    if "i \<in> retrieve_ids (mode self) V K" for i
    using fusion_item_for_id [OF assms(1) m d that] by simp
  have 1: "node_ids out \<subseteq> node_ids V \<union> node_ids K"
    using ids retrieve_ids_subset by simp
  have 2: "mode self = ''AND'' \<longrightarrow>
             node_ids out \<subseteq> node_ids V \<inter> node_ids K
             \<and> (\<forall>i. i \<in> node_ids V \<and> i \<in> node_ids K \<longrightarrow>
                    length (filter (\<lambda>n. node_id (node n) = i) out) = 1)"
  proof
    assume a: "mode self = ''AND''"
    then have "retrieve_ids (mode self) V K = node_ids V \<inter> node_ids K"
      by (simp add: retrieve_ids_if)
    with ids once show "node_ids out \<subseteq> node_ids V \<inter> node_ids K
       \<and> (\<forall>i. i \<in> node_ids V \<and> i \<in> node_ids K \<longrightarrow>
              length (filter (\<lambda>n. node_id (node n) = i) out) = 1)"
      by simp
  qed
  have 3: "mode self = ''OR'' \<longrightarrow>
             (\<forall>i. i \<in> node_ids V \<or> i \<in> node_ids K \<longrightarrow>
                    length (filter (\<lambda>n. node_id (node n) = i) out) = 1)"
  proof
    assume a: "mode self = ''OR''"
    then have "retrieve_ids (mode self) V K = node_ids V \<union> node_ids K"
      by (simp add: retrieve_ids_if)
    with once show "\<forall>i. i \<in> node_ids V \<or> i \<in> node_ids K \<longrightarrow>
              length (filter (\<lambda>n. node_id (node n) = i) out) = 1"
      by simp
  qed
  have 4: "distinct (map (\<lambda>n. node_id (node n)) out)"
    using assms(1) m by (rule fusion_distinct)
  from r 1 2 3 4 show ?thesis by blast
qed

theorem fused_ids_upstream_once_witness:
  "\<exists>out. CustomRetriever_retrieve sorted_iteration (repeating_retriever ''OR'') ''first job'' 0 = (Inr out, 2)
      \<and> node_ids out \<subseteq> {''a'', ''b'', ''c''}
      \<and> length (filter (\<lambda>n. node_id (node n) = ''a'') out) = 1
      \<and> length (filter (\<lambda>n. node_id (node n) = ''b'') out) = 1
      \<and> length (filter (\<lambda>n. node_id (node n) = ''c'') out) = 1"
proof -
  have m: "mode (repeating_retriever ''OR'') = ''OR''"
    by (simp add: repeating_retriever_def)
  have i: "node_ids (scenario_V @ scenario_V) = {''a'', ''b''}"
    by (auto simp: node_ids_def scenario_V_def)
  show ?thesis
    using fused_ids_upstream_once [OF set_iteration_sorted repeating_calls, of "''OR''" "''first job''"]
    by (auto simp: m i scenario_ids)
qed

text \<open>
  C7: when the reader raises, \<^verbatim>\<open>load_documents\<close> raises a \<^verbatim>\<open>RuntimeError\<close> whose text is
  "Failed to load documents: " followed by the text of the caught exception, and whose
  context is the caught exception; when the reader returns, its documents are returned.
  The reader is called once: the world afterwards is the one its single call left.
\<close>

theorem load_documents_wraps:
  "(simple_directory_reader file_path w = (Inl e, w1) \<longrightarrow>
      load_documents simple_directory_reader file_path w
        = (Inl (Exn ''RuntimeError'' (''Failed to load documents: '' @ exc_str e) None (Some e)), w1))
   \<and> (simple_directory_reader file_path w = (Inr documents, w1) \<longrightarrow>
      load_documents simple_directory_reader file_path w = (Inr documents, w1))
   \<and> snd (load_documents simple_directory_reader file_path w) = snd (simple_directory_reader file_path w)"
  by (auto simp: load_documents_def split: prod.splits sum.splits)

theorem load_documents_wraps_witness:
  "load_documents flaky_reader ''resume'' 0
     = (Inl (Exn ''RuntimeError'' ''Failed to load documents: no such directory'' None
          (Some (Exn ''FileNotFoundError'' ''no such directory'' None None))), 1)
   \<and> flaky_reader ''resume'' 1 = (Inr [''resume text''], 2)
   \<and> load_documents flaky_reader ''resume'' 1 = (Inr [''resume text''], 2)"
proof -
  have f: "flaky_reader ''resume'' 0 = (Inl (Exn ''FileNotFoundError'' ''no such directory'' None None), 1)"
    "flaky_reader ''resume'' 1 = (Inr [''resume text''], 2)"
    by (simp_all add: flaky_reader_def)
  show ?thesis
    using load_documents_wraps [of flaky_reader "''resume''" 0
        "Exn ''FileNotFoundError'' ''no such directory'' None None" 1]
      load_documents_wraps [of flaky_reader "''resume''" 1 _ 2 "[''resume text'']"]
      f
    by simp
qed

text \<open>
  C8: when both upstream lists are empty the fusion retriever returns the empty list and
  raises nothing, in every mode.
\<close>

theorem empty_inputs:
  assumes "set_iteration it"
    and "vector_retriever self q w = (Inr [], w1)"
    and "keyword_retriever self q w1 = (Inr [], w2)"
  shows "CustomRetriever_retrieve it self q w = (Inr [], w2)"
  using retrieve_returns [OF assms] by (simp add: it_retrieve_ids_empty [OF assms(1)])

theorem empty_inputs_witness:
  "CustomRetriever_retrieve sorted_iteration (empty_retriever ''AND'') ''first job'' 0 = (Inr [], 2)
   \<and> CustomRetriever_retrieve sorted_iteration (empty_retriever ''OR'') ''first job'' 0 = (Inr [], 2)"
  using empty_inputs [OF set_iteration_sorted empty_calls, of "''AND''" "''first job''"]
    empty_inputs [OF set_iteration_sorted empty_calls, of "''OR''" "''first job''"]
  by simp

text \<open>
  C9: a constructor call without a mode stores the mode "OR". \<^verbatim>\<open>create_query_engines\<close>
  makes such a call, so the retriever of its custom query engine returns the union of the
  two upstream id sets.
\<close>

theorem default_mode_is_or:
  "CustomRetriever_init vr kr None = Inr \<lparr>vector_retriever = vr, keyword_retriever = kr, mode = ''OR''\<rparr>
   \<and> create_query_engines it VectorIndexRetriever KeywordTableSimpleRetriever synth vector_index keyword_index
       = Inr (\<lparr>retriever = VectorIndexRetriever vector_index 2, response_synthesizer = synth\<rparr>,
              \<lparr>retriever = KeywordTableSimpleRetriever keyword_index, response_synthesizer = synth\<rparr>,
              \<lparr>retriever = CustomRetriever_retrieve it
                   \<lparr>vector_retriever = VectorIndexRetriever vector_index 2,
                    keyword_retriever = KeywordTableSimpleRetriever keyword_index,
                    mode = ''OR''\<rparr>,
               response_synthesizer = synth\<rparr>)
   \<and> (set_iteration it
        \<and> VectorIndexRetriever vector_index 2 q w = (Inr V, w1)
        \<and> KeywordTableSimpleRetriever keyword_index q w1 = (Inr K, w2) \<longrightarrow>
        (\<exists>ve ke ce out.
           create_query_engines it VectorIndexRetriever KeywordTableSimpleRetriever synth vector_index keyword_index
             = Inr (ve, ke, ce)
           \<and> retriever ce q w = (Inr out, w2)
           \<and> node_ids out = node_ids V \<union> node_ids K))"
proof -
  let ?self = "\<lparr>vector_retriever = VectorIndexRetriever vector_index 2,
                keyword_retriever = KeywordTableSimpleRetriever keyword_index,
                mode = ''OR''\<rparr>"
  have 1: "CustomRetriever_init vr kr None = Inr \<lparr>vector_retriever = vr, keyword_retriever = kr, mode = ''OR''\<rparr>"
    by (simp add: CustomRetriever_init_def)
  have 2: "create_query_engines it VectorIndexRetriever KeywordTableSimpleRetriever synth vector_index keyword_index
       = Inr (\<lparr>retriever = VectorIndexRetriever vector_index 2, response_synthesizer = synth\<rparr>,
              \<lparr>retriever = KeywordTableSimpleRetriever keyword_index, response_synthesizer = synth\<rparr>,
              \<lparr>retriever = CustomRetriever_retrieve it ?self, response_synthesizer = synth\<rparr>)"
    by (simp add: create_query_engines_def Let_def CustomRetriever_init_def)
  have 3: "\<exists>out. CustomRetriever_retrieve it ?self q w = (Inr out, w2)
             \<and> node_ids out = node_ids V \<union> node_ids K"
    if it: "set_iteration it"
      and v: "VectorIndexRetriever vector_index 2 q w = (Inr V, w1)"
      and k: "KeywordTableSimpleRetriever keyword_index q w1 = (Inr K, w2)"
  proof -
    have v': "vector_retriever ?self q w = (Inr V, w1)" using v by simp
    have k': "keyword_retriever ?self q w1 = (Inr K, w2)" using k by simp
    from fusion_result [OF it v' k'] obtain out
      where r: "CustomRetriever_retrieve it ?self q w = (Inr out, w2)"
        and m: "map (\<lambda>n. node_id (node n)) out = it (retrieve_ids (mode ?self) V K)"
      by blast
    have "node_ids out = retrieve_ids (mode ?self) V K"
      using it m by (rule node_ids_out)
    then have "node_ids out = node_ids V \<union> node_ids K"
      by (simp add: retrieve_ids_if)
    with r show ?thesis by blast
  qed
  from 1 2 3 show ?thesis by simp
qed

theorem default_mode_is_or_witness:
  "CustomRetriever_init (answering (Inr scenario_V)) (answering (Inr scenario_K)) None
     = Inr (scenario_retriever ''OR'')
   \<and> (\<exists>ve ke ce out.
         create_query_engines sorted_iteration top_k_retriever whole_index_retriever ()
             scenario_V scenario_K
           = Inr (ve, ke, ce)
         \<and> retriever ce ''first job'' 0 = (Inr out, 2)
         \<and> node_ids out = {''a'', ''b'', ''c''})"
proof -
  have v: "top_k_retriever scenario_V 2 ''first job'' 0 = (Inr scenario_V, 1)"
    by (simp add: top_k_retriever_def answering_def scenario_V_def)
  have k: "whole_index_retriever scenario_K ''first job'' 1 = (Inr scenario_K, 2)"
    by (simp add: whole_index_retriever_def answering_def)
  have u: "node_ids scenario_V \<union> node_ids scenario_K = {''a'', ''b'', ''c''}"
    by (auto simp: scenario_ids)
  note d = default_mode_is_or [of "answering (Inr scenario_V)" "answering (Inr scenario_K)"
        sorted_iteration top_k_retriever whole_index_retriever "()" scenario_V scenario_K
        "''first job''" 0 scenario_V 1 scenario_K 2]
  from d have 1: "CustomRetriever_init (answering (Inr scenario_V)) (answering (Inr scenario_K)) None
     = Inr (scenario_retriever ''OR'')"
    by (simp add: scenario_retriever_def)
  from d set_iteration_sorted v k
  have 2: "\<exists>ve ke ce out.
         create_query_engines sorted_iteration top_k_retriever whole_index_retriever ()
             scenario_V scenario_K
           = Inr (ve, ke, ce)
         \<and> retriever ce ''first job'' 0 = (Inr out, 2)
         \<and> node_ids out = node_ids scenario_V \<union> node_ids scenario_K"
    by blast
  from 1 2 show ?thesis unfolding u by blast
qed

text \<open>
  C10: in both modes every id of \<^verbatim>\<open>retrieve_ids\<close> is a key of \<^verbatim>\<open>combined_dict\<close>, so the list
  comprehension finds every id it looks up and raises no \<^verbatim>\<open>KeyError\<close>.
\<close>

theorem lookup_total:
  "retrieve_ids m V K \<subseteq> dom (combined_dict V K)
   \<and> (set_iteration it \<longrightarrow>
        (\<exists>out. retrieve_nodes (combined_dict V K) (it (retrieve_ids m V K)) = Inr out))"
proof
  show "retrieve_ids m V K \<subseteq> dom (combined_dict V K)"
    using retrieve_ids_subset by (simp add: dom_combined_dict)
  show "set_iteration it \<longrightarrow>
        (\<exists>out. retrieve_nodes (combined_dict V K) (it (retrieve_ids m V K)) = Inr out)"
  proof
    assume "set_iteration it"
    then have "set (it (retrieve_ids m V K)) \<subseteq> dom (combined_dict V K)"
      by (rule set_it_subset_dom)
    then show "\<exists>out. retrieve_nodes (combined_dict V K) (it (retrieve_ids m V K)) = Inr out"
      by (simp add: retrieve_nodes_total)
  qed
qed

theorem lookup_total_witness:
  "retrieve_ids ''AND'' scenario_V scenario_K \<subseteq> dom (combined_dict scenario_V scenario_K)
   \<and> retrieve_ids ''OR'' scenario_V scenario_K \<subseteq> dom (combined_dict scenario_V scenario_K)
   \<and> (\<exists>out. retrieve_nodes (combined_dict scenario_V scenario_K)
               (sorted_iteration (retrieve_ids ''AND'' scenario_V scenario_K)) = Inr out)
   \<and> (\<exists>out. retrieve_nodes (combined_dict scenario_V scenario_K)
               (sorted_iteration (retrieve_ids ''OR'' scenario_V scenario_K)) = Inr out)"
  using lookup_total [of "''AND''" scenario_V scenario_K sorted_iteration]
    lookup_total [of "''OR''" scenario_V scenario_K sorted_iteration]
    set_iteration_sorted
  by simp

end
